theory Spec2Isabelle
  imports Main
begin

section \<open>JavaScript string primitives used by the widget\<close>

text \<open>
  A JavaScript string is modelled as a \<open>string\<close> (a list of characters), one list element
  per unit counted by \<open>.length\<close>. Numbers that index strings are integers (\<open>int\<close>),
  since the widget stores cursor offsets that may leave the range of the value.
\<close>

definition relIndex :: "int \<Rightarrow> int \<Rightarrow> int" where
  \<comment> \<open>The index normalisation of \<open>String.prototype.slice\<close>: a negative index counts
      from the end, and the result is confined to \<open>[0, len]\<close>.\<close>
  "relIndex len k = (if k < 0 then max (len + k) 0 else min k len)"

definition slice :: "string \<Rightarrow> int \<Rightarrow> int \<Rightarrow> string" where
  \<comment> \<open>\<open>s.slice(b, e)\<close> for integer arguments.\<close>
  "slice s b e =
     (let len = int (length s);
          fromIdx = relIndex len b;
          toIdx = relIndex len e
      in take (nat (toIdx - fromIdx)) (drop (nat fromIdx) s))"

definition sliceFrom :: "string \<Rightarrow> int \<Rightarrow> string" where
  \<comment> \<open>\<open>s.slice(b)\<close>: the end defaults to the length of the string.\<close>
  "sliceFrom s b = slice s b (int (length s))"

definition startsWith :: "string \<Rightarrow> string \<Rightarrow> bool" where
  \<comment> \<open>\<open>s.startsWith(p)\<close>.\<close>
  "startsWith s p = (take (length p) s = p)"

section \<open>Decorations and the style table\<close>

datatype DecorationStyle = Error | Warning | Info | Highlight

text \<open>
  The type \<open>Decoration\<close> of the source has the fields \<open>start\<close>, \<open>end\<close> and \<open>style\<close>;
  the fields carry the prefix \<open>dec_\<close> here because \<open>end\<close> is reserved and \<open>Segment\<close>
  has fields of the same names.
\<close>

record Decoration =
  dec_start :: int
  dec_end :: int
  dec_style :: DecorationStyle

text \<open>
  A \<open>Partial<TextProps>\<close> object is a finite map from property names to values; the
  values that occur in the style table are strings and booleans.
\<close>

datatype PropValue = Str string | Bool bool

type_synonym TextProps = "string \<rightharpoonup> PropValue"

fun decorationStyles :: "DecorationStyle \<Rightarrow> TextProps" where
  "decorationStyles Error = [''color'' \<mapsto> Str ''red'', ''underline'' \<mapsto> Bool True]"
| "decorationStyles Warning = [''color'' \<mapsto> Str ''yellow'', ''underline'' \<mapsto> Bool True]"
| "decorationStyles Info = [''color'' \<mapsto> Str ''blue'', ''underline'' \<mapsto> Bool True]"
| "decorationStyles Highlight = [''backgroundColor'' \<mapsto> Str ''yellow'']"

definition objectAssign :: "TextProps \<Rightarrow> TextProps \<Rightarrow> TextProps" where
  \<comment> \<open>\<open>Object.assign(target, source)\<close>: every property of the source is written into
      the target, the other properties of the target stay.\<close>
  "objectAssign target source = target ++ source"

definition mergeDecorationStyles :: "Decoration list \<Rightarrow> TextProps option" where
  \<comment> \<open>\<open>undefined\<close> for the empty list, otherwise the styles assigned in list order
      into an initially empty object.\<close>
  "mergeDecorationStyles decorations =
     (if length decorations = 0 then None
      else Some (fold (\<lambda>dec merged. objectAssign merged (decorationStyles (dec_style dec)))
                   decorations Map.empty))"

section \<open>The segment builder\<close>

record Segment =
  seg_text :: string
  seg_start :: int
  seg_end :: int
  isCursor :: bool
  seg_decorations :: "Decoration list"

definition clampDecoration :: "string \<Rightarrow> Decoration \<Rightarrow> Decoration" where
  "clampDecoration val dec =
     dec\<lparr>dec_start := max 0 (min (dec_start dec) (int (length val))),
         dec_end := max 0 (min (dec_end dec) (int (length val)))\<rparr>"

definition setAdd :: "int \<Rightarrow> int list \<Rightarrow> int list" where
  \<comment> \<open>\<open>Set.prototype.add\<close> on a set kept in insertion order.\<close>
  "setAdd p ps = (if p \<in> set ps then ps else ps @ [p])"

definition addCursorPoints :: "string \<Rightarrow> int \<Rightarrow> bool \<Rightarrow> int list \<Rightarrow> int list" where
  "addCursorPoints val cursorPos showCur ps =
     (if showCur
      then (let ps1 = setAdd cursorPos ps
            in if cursorPos < int (length val) then setAdd (cursorPos + 1) ps1 else ps1)
      else ps)"

definition addDecorationPoints :: "Decoration \<Rightarrow> int list \<Rightarrow> int list" where
  "addDecorationPoints dec ps =
     (if dec_start dec < dec_end dec then setAdd (dec_end dec) (setAdd (dec_start dec) ps)
      else ps)"

definition splitPoints :: "string \<Rightarrow> int \<Rightarrow> Decoration list \<Rightarrow> bool \<Rightarrow> int list" where
  "splitPoints val cursorPos clampedDecorations showCur =
     fold addDecorationPoints clampedDecorations
       (addCursorPoints val cursorPos showCur (setAdd (int (length val)) (setAdd 0 [])))"

definition points :: "string \<Rightarrow> int \<Rightarrow> Decoration list \<Rightarrow> bool \<Rightarrow> int list" where
  "points val cursorPos clampedDecorations showCur =
     filter (\<lambda>p. p \<ge> 0 \<and> p \<le> int (length val))
       (sort (splitPoints val cursorPos clampedDecorations showCur))"

definition mkSegment ::
  "string \<Rightarrow> int \<Rightarrow> Decoration list \<Rightarrow> bool \<Rightarrow> int \<Rightarrow> int \<Rightarrow> Segment" where
  \<comment> \<open>The body of the loop over consecutive points.\<close>
  "mkSegment val cursorPos clampedDecorations showCur a b =
     \<lparr>seg_text = slice val a b,
      seg_start = a,
      seg_end = b,
      isCursor = (showCur \<and> a = cursorPos \<and> b = cursorPos + 1),
      seg_decorations = filter (\<lambda>dec. dec_start dec < b \<and> dec_end dec > a) clampedDecorations\<rparr>"

fun segmentsOf ::
  "string \<Rightarrow> int \<Rightarrow> Decoration list \<Rightarrow> bool \<Rightarrow> int list \<Rightarrow> Segment list" where
  "segmentsOf val cursorPos ds showCur (a # b # ps) =
     mkSegment val cursorPos ds showCur a b # segmentsOf val cursorPos ds showCur (b # ps)"
| "segmentsOf val cursorPos ds showCur ps = []"

definition createSegments ::
  "string \<Rightarrow> int \<Rightarrow> Decoration list \<Rightarrow> bool \<Rightarrow> Segment list" where
  "createSegments val cursorPos decorations showCur =
     (let clampedDecorations = map (clampDecoration val) decorations
      in segmentsOf val cursorPos clampedDecorations showCur
           (points val cursorPos clampedDecorations showCur))"

section \<open>The text input: state, properties, key events\<close>

record State =
  cursorOffset :: int
  cursorWidth :: int

record Props =
  focus :: bool
  showCursor :: bool
  getSuggestion :: "(string \<Rightarrow> string option) option"

text \<open>The key flags of a key event that the handler reads, and the typed input.\<close>

record Key =
  upArrow :: bool
  downArrow :: bool
  leftArrow :: bool
  rightArrow :: bool
  ctrl :: bool
  shift :: bool
  tab :: bool
  returnKey :: bool
  backspace :: bool
  deleteKey :: bool

text \<open>
  What one run of the handler does to the outside: the state it stores (\<open>setState\<close>,
  absent on the early returns) and the arguments of the callbacks it calls. A call of an
  optional callback is recorded whether or not the caller installed one.
\<close>

record Effects =
  setState :: "State option"
  onChange :: "string option"
  onSubmit :: "string option"
  onSuggestionAccept :: "string option"

definition noEffects :: Effects where
  "noEffects = \<lparr>setState = None, onChange = None, onSubmit = None, onSuggestionAccept = None\<rparr>"

definition validSuggestion :: "string \<Rightarrow> string option \<Rightarrow> bool" where
  \<comment> \<open>\<open>suggestion && suggestion.startsWith(originalValue) && suggestion !== originalValue\<close>;
      \<open>undefined\<close> and the empty string are falsy.\<close>
  "validSuggestion originalValue r =
     (case r of None \<Rightarrow> False
      | Some suggestion \<Rightarrow>
          suggestion \<noteq> [] \<and> startsWith suggestion originalValue \<and> suggestion \<noteq> originalValue)"

text \<open>The local variables of the handler after the branch on the key.\<close>

record Locals =
  nextCursorOffset :: int
  nextValue :: string
  nextCursorWidth :: int
  accepted :: "string option"

definition editBranch :: "Props \<Rightarrow> string \<Rightarrow> State \<Rightarrow> string \<Rightarrow> Key \<Rightarrow> Locals" where
  "editBranch props originalValue st inp key =
     (let c = cursorOffset st;
          len = int (length originalValue);
          init = \<lparr>nextCursorOffset = c, nextValue = originalValue,
                  nextCursorWidth = 0, accepted = None\<rparr>
      in if leftArrow key then
           (if showCursor props then init\<lparr>nextCursorOffset := c - 1\<rparr> else init)
         else if rightArrow key then
           (if showCursor props then
              (case getSuggestion props of
                 Some g \<Rightarrow>
                   (if c = len then
                      (if validSuggestion originalValue (g originalValue)
                       then init\<lparr>nextValue := the (g originalValue),
                                 nextCursorOffset := int (length (the (g originalValue))),
                                 accepted := g originalValue\<rparr>
                       else init\<lparr>nextCursorOffset := c + 1\<rparr>)
                    else init\<lparr>nextCursorOffset := c + 1\<rparr>)
               | None \<Rightarrow> init\<lparr>nextCursorOffset := c + 1\<rparr>)
            else init)
         else if backspace key \<or> deleteKey key then
           (if c > 0
            then init\<lparr>nextValue := slice originalValue 0 (c - 1) @ slice originalValue c len,
                      nextCursorOffset := c - 1\<rparr>
            else init)
         else
           init\<lparr>nextValue := slice originalValue 0 c @ inp @ slice originalValue c len,
                nextCursorOffset := c + int (length inp),
                nextCursorWidth := (if length inp > 1 then int (length inp) else 0)\<rparr>)"

definition handleInput :: "Props \<Rightarrow> string \<Rightarrow> State \<Rightarrow> string \<Rightarrow> Key \<Rightarrow> Effects" where
  \<comment> \<open>The callback given to \<open>useInput\<close>.\<close>
  "handleInput props originalValue st inp key =
     (if upArrow key \<or> downArrow key \<or> (ctrl key \<and> inp = ''c'') \<or> tab key
         \<or> (shift key \<and> tab key)
      then noEffects
      else if returnKey key then noEffects\<lparr>onSubmit := Some originalValue\<rparr>
      else
        (let c = cursorOffset st;
             len = int (length originalValue);
             l = editBranch props originalValue st inp key;
             n1 = (if c < 0 then 0 else nextCursorOffset l);
             n2 = (if c > len then len else n1)
         in \<lparr>setState = Some \<lparr>cursorOffset = n2, cursorWidth = nextCursorWidth l\<rparr>,
             onChange = (if nextValue l \<noteq> originalValue then Some (nextValue l) else None),
             onSubmit = None,
             onSuggestionAccept = accepted l\<rparr>))"

definition reconcile :: "Props \<Rightarrow> string \<Rightarrow> State \<Rightarrow> State" where
  \<comment> \<open>The state update of the effect that runs when the value, \<open>focus\<close> or
      \<open>showCursor\<close> changes.\<close>
  "reconcile props originalValue previousState =
     (if \<not> focus props \<or> \<not> showCursor props then previousState
      else if cursorOffset previousState > int (length originalValue) - 1
      then \<lparr>cursorOffset = int (length originalValue), cursorWidth = 0\<rparr>
      else previousState)"

definition ghostText :: "Props \<Rightarrow> string \<Rightarrow> State \<Rightarrow> string" where
  "ghostText props originalValue st =
     (case getSuggestion props of
        None \<Rightarrow> []
      | Some g \<Rightarrow>
          (if focus props \<and> cursorOffset st = int (length originalValue)
           then (if validSuggestion originalValue (g originalValue)
                 then sliceFrom (the (g originalValue)) (int (length originalValue))
                 else [])
           else []))"

section \<open>The widget holding its own value\<close>

text \<open>
  \<open>UncontrolledTextInput\<close> keeps the value in its own state and passes \<open>setValue\<close> as
  \<open>onChange\<close>. One key event runs the handler when the widget has the focus, stores the
  state and the value the handler hands out, and, when the value changed, runs the
  effect on the new value.
\<close>

record Widget =
  wvalue :: string
  wstate :: State

definition step :: "Props \<Rightarrow> Widget \<Rightarrow> string \<times> Key \<Rightarrow> Widget" where
  "step props w ev =
     (if \<not> focus props then w
      else
        (let eff = handleInput props (wvalue w) (wstate w) (fst ev) (snd ev);
             st1 = (case setState eff of None \<Rightarrow> wstate w | Some s \<Rightarrow> s)
         in case onChange eff of
              None \<Rightarrow> \<lparr>wvalue = wvalue w, wstate = st1\<rparr>
            | Some v \<Rightarrow> \<lparr>wvalue = v, wstate = reconcile props v st1\<rparr>))"

definition run :: "Props \<Rightarrow> Widget \<Rightarrow> (string \<times> Key) list \<Rightarrow> Widget" where
  "run props w evs = foldl (step props) w evs"

definition noKey :: Key where
  "noKey = \<lparr>upArrow = False, downArrow = False, leftArrow = False, rightArrow = False,
            ctrl = False, shift = False, tab = False, returnKey = False,
            backspace = False, deleteKey = False\<rparr>"

text \<open>The edit intents of the specification as key events.\<close>

definition MoveLeft :: "string \<times> Key" where
  "MoveLeft = ([], noKey\<lparr>leftArrow := True\<rparr>)"

definition MoveRight :: "string \<times> Key" where
  "MoveRight = ([], noKey\<lparr>rightArrow := True\<rparr>)"

definition DeleteLeft :: "string \<times> Key" where
  "DeleteLeft = ([], noKey\<lparr>backspace := True\<rparr>)"

definition InsertText :: "string \<Rightarrow> string \<times> Key" where
  "InsertText s = (s, noKey)"

section \<open>Notions used in the statements\<close>

text \<open>
  The split points a clamped decoration contributes: its two ends when it is not empty.
\<close>

definition decPoints :: "Decoration \<Rightarrow> int set" where
  "decPoints d = (if dec_start d < dec_end d then {dec_start d, dec_end d} else {})"

text \<open>
  The split points the cursor contributes.
\<close>

definition cursorPoints :: "string \<Rightarrow> int \<Rightarrow> bool \<Rightarrow> int set" where
  "cursorPoints val c sc =
     (if sc then (if c < int (length val) then {c, c + 1} else {c}) else {})"

text \<open>
  A point lies strictly inside the span of a segment.
\<close>

definition straddles :: "Segment \<Rightarrow> int \<Rightarrow> bool" where
  "straddles s p = (seg_start s < p \<and> p < seg_end s)"

text \<open>
  The key events that reach the right-arrow branch of the handler.
\<close>

definition isMoveRight :: "string \<Rightarrow> Key \<Rightarrow> bool" where
  "isMoveRight inp key =
     (\<not> upArrow key \<and> \<not> downArrow key \<and> \<not> (ctrl key \<and> inp = ''c'') \<and> \<not> tab key
      \<and> \<not> returnKey key \<and> \<not> leftArrow key \<and> rightArrow key)"

text \<open>
  The key events that reach the backspace/delete branch of the handler.
\<close>

definition isDeleteLeft :: "string \<Rightarrow> Key \<Rightarrow> bool" where
  "isDeleteLeft inp key =
     (\<not> upArrow key \<and> \<not> downArrow key \<and> \<not> (ctrl key \<and> inp = ''c'') \<and> \<not> tab key
      \<and> \<not> returnKey key \<and> \<not> leftArrow key \<and> \<not> rightArrow key
      \<and> (backspace key \<or> deleteKey key))"

text \<open>
  The suggestion the provider returns for the value when it is valid, if any.
\<close>

definition suggestionFor :: "Props \<Rightarrow> string \<Rightarrow> string option" where
  "suggestionFor props v =
     (case getSuggestion props of
        None \<Rightarrow> None
      | Some g \<Rightarrow> (if validSuggestion v (g v) then g v else None))"

text \<open>
  The suggestion provider of the test suite.
\<close>

definition sqlSuggest :: "string \<Rightarrow> string option" where
  "sqlSuggest v = (if startsWith v ''sel'' then Some ''select * from users'' else None)"

text \<open>
  The default properties: focused, cursor shown, no suggestion provider.
\<close>

definition shownProps :: Props where
  "shownProps = \<lparr>focus = True, showCursor = True, getSuggestion = None\<rparr>"

text \<open>
  Focused, cursor shown, with the suggestion provider of the test suite.
\<close>

definition suggestProps :: Props where
  "suggestProps = \<lparr>focus = True, showCursor = True, getSuggestion = Some sqlSuggest\<rparr>"

text \<open>
  Focused, cursor hidden, with the suggestion provider of the test suite.
\<close>

definition hiddenProps :: Props where
  "hiddenProps = \<lparr>focus = True, showCursor = False, getSuggestion = Some sqlSuggest\<rparr>"

text \<open>
  The merge rule in the words of the specification, last write wins attribute by
  attribute: the value of attribute \<open>k\<close> is the one given by the last decoration of the
  list whose style sets \<open>k\<close>, and an attribute no style sets is absent.
\<close>

definition lastWrite :: "Decoration list \<Rightarrow> string \<Rightarrow> PropValue option" where
  "lastWrite ds k =
     (let writers = filter (\<lambda>d. decorationStyles (dec_style d) k \<noteq> None) ds
      in if writers = [] then None else decorationStyles (dec_style (last writers)) k)"

text \<open>
  The two overlapping decorations of the merge-order scenario.
\<close>

definition errorAndHighlight :: "Decoration list" where
  "errorAndHighlight = [\<lparr>dec_start = 0, dec_end = 5, dec_style = Error\<rparr>,
                         \<lparr>dec_start = 2, dec_end = 8, dec_style = Highlight\<rparr>]"

text \<open>
  Clamping into \<open>[0, n]\<close> in the words of the specification: a number below the range
  becomes 0, a number above it becomes \<open>n\<close>, a number inside it stays.
\<close>

definition clampInto :: "int \<Rightarrow> int \<Rightarrow> int" where
  "clampInto n x = (if x < 0 then 0 else if n < x then n else x)"

text \<open>
  The clamped decoration of the specification: both ends clamped into
  \<open>[0, length value]\<close>, the style kept.
\<close>

definition clampedRange :: "string \<Rightarrow> Decoration \<Rightarrow> Decoration" where
  "clampedRange val d =
     \<lparr>dec_start = clampInto (int (length val)) (dec_start d),
      dec_end = clampInto (int (length val)) (dec_end d),
      dec_style = dec_style d\<rparr>"

text \<open>
  Two decorations that reach beyond the value \<open>''selct''\<close> on either side and meet at 3.
\<close>

definition outOfRangePair :: "Decoration list" where
  "outOfRangePair = [\<lparr>dec_start = - 4, dec_end = 3, dec_style = Error\<rparr>,
                      \<lparr>dec_start = 3, dec_end = 50, dec_style = Highlight\<rparr>]"

section \<open>Unfolding rules\<close>

lemmas handle_defs = handleInput_def editBranch_def Let_def noEffects_def

lemmas ev_defs = MoveLeft_def MoveRight_def DeleteLeft_def InsertText_def noKey_def

lemmas seg_defs = createSegments_def points_def splitPoints_def addCursorPoints_def
      addDecorationPoints_def setAdd_def clampDecoration_def mkSegment_def slice_def
      relIndex_def Let_def

section \<open>Split points\<close>

lemma set_setAdd: "set (setAdd p ps) = insert p (set ps)"
  by (auto simp: setAdd_def)

lemma distinct_setAdd: "distinct ps \<Longrightarrow> distinct (setAdd p ps)"
  by (simp add: setAdd_def)

lemma set_addDecorationPoints: "set (addDecorationPoints d ps) = set ps \<union> decPoints d"
  by (auto simp: addDecorationPoints_def decPoints_def set_setAdd)

lemma distinct_addDecorationPoints: "distinct ps \<Longrightarrow> distinct (addDecorationPoints d ps)"
  by (simp add: addDecorationPoints_def distinct_setAdd)

lemma set_fold_addDecorationPoints:
  "set (fold addDecorationPoints ds ps) = set ps \<union> (\<Union>d\<in>set ds. decPoints d)"
  by (induction ds arbitrary: ps) (auto simp: set_addDecorationPoints)

lemma distinct_fold_addDecorationPoints:
  "distinct ps \<Longrightarrow> distinct (fold addDecorationPoints ds ps)"
  by (induction ds arbitrary: ps) (auto simp: distinct_addDecorationPoints)

lemma set_addCursorPoints: "set (addCursorPoints val c sc ps) = set ps \<union> cursorPoints val c sc"
  by (auto simp: addCursorPoints_def cursorPoints_def set_setAdd Let_def)

lemma distinct_addCursorPoints: "distinct ps \<Longrightarrow> distinct (addCursorPoints val c sc ps)"
  by (simp add: addCursorPoints_def distinct_setAdd Let_def)

lemma set_splitPoints:
  "set (splitPoints val c ds sc) =
     {0, int (length val)} \<union> cursorPoints val c sc \<union> (\<Union>d\<in>set ds. decPoints d)"
  by (auto simp: splitPoints_def set_fold_addDecorationPoints set_addCursorPoints set_setAdd)

lemma distinct_splitPoints: "distinct (splitPoints val c ds sc)"
  by (simp add: splitPoints_def distinct_fold_addDecorationPoints distinct_addCursorPoints
      distinct_setAdd)

lemma set_points:
  "set (points val c ds sc) =
     {p \<in> {0, int (length val)} \<union> cursorPoints val c sc \<union> (\<Union>d\<in>set ds. decPoints d).
        0 \<le> p \<and> p \<le> int (length val)}"
  by (auto simp: points_def set_splitPoints)

lemma strict_points: "sorted_wrt (<) (points val c ds sc)"
  unfolding points_def
  by (intro sorted_wrt_filter) (simp add: strict_sorted_iff distinct_splitPoints)

lemma points_range: "p \<in> set (points val c ds sc) \<Longrightarrow> 0 \<le> p \<and> p \<le> int (length val)"
  by (simp add: set_points)

lemma zero_in_points: "0 \<in> set (points val c ds sc)"
  by (simp add: set_points)

lemma len_in_points: "int (length val) \<in> set (points val c ds sc)"
  by (simp add: set_points)

lemma points_nonempty: "points val c ds sc \<noteq> []"
  using zero_in_points[of val c ds sc] by auto

lemma hd_points: "hd (points val c ds sc) = 0"
proof -
  obtain a ps where eq: "points val c ds sc = a # ps"
    using points_nonempty[of val c ds sc] by (cases "points val c ds sc") auto
  have "sorted_wrt (<) (a # ps)" using strict_points[of val c ds sc] eq by simp
  hence le: "\<forall>x\<in>set ps. a < x" by simp
  have "0 \<in> set (a # ps)" using zero_in_points[of val c ds sc] eq by simp
  moreover have "0 \<le> a" using points_range[of a val c ds sc] eq by simp
  ultimately have "a = 0" using le by auto
  thus ?thesis using eq by simp
qed

lemma last_strict_sorted:
  "sorted_wrt (<) ps \<Longrightarrow> x \<in> set ps \<Longrightarrow> (x::int) \<le> last ps"
proof (induction ps)
  case Nil
  then show ?case by simp
next
  case (Cons a ps)
  show ?case
  proof (cases "ps = []")
    case True
    then show ?thesis using Cons.prems by simp
  next
    case False
    hence "last ps \<in> set ps" by simp
    hence "a < last ps" using Cons.prems(1) by simp
    moreover have "x \<in> set ps \<Longrightarrow> x \<le> last ps" using Cons.IH Cons.prems(1) by simp
    ultimately show ?thesis using Cons.prems(2) False by auto
  qed
qed

lemma last_points: "last (points val c ds sc) = int (length val)"
proof -
  have "int (length val) \<le> last (points val c ds sc)"
    using last_strict_sorted[OF strict_points len_in_points] .
  moreover have "last (points val c ds sc) \<le> int (length val)"
    using points_range[of "last (points val c ds sc)" val c ds sc] points_nonempty[of val c ds sc]
    by simp
  ultimately show ?thesis by simp
qed

lemma decPoint_in_points:
  "d \<in> set cd \<Longrightarrow> p \<in> decPoints d \<Longrightarrow> 0 \<le> p \<Longrightarrow> p \<le> int (length val) \<Longrightarrow>
     p \<in> set (points val c cd sc)"
  by (auto simp: set_points)

section \<open>Slices\<close>

lemma slice_in_range:
  "0 \<le> a \<Longrightarrow> a \<le> b \<Longrightarrow> b \<le> int (length s) \<Longrightarrow>
     slice s a b = take (nat (b - a)) (drop (nat a) s)"
  by (simp add: slice_def relIndex_def Let_def)

lemma slice_append:
  assumes "0 \<le> a" "a \<le> b" "b \<le> e" "e \<le> int (length s)"
  shows "slice s a b @ slice s b e = slice s a e"
proof -
  have "nat (e - a) = nat (b - a) + nat (e - b)" using assms by simp
  moreover have "drop (nat b) s = drop (nat (b - a)) (drop (nat a) s)"
    using assms by (simp add: nat_diff_distrib)
  ultimately show ?thesis
    using assms by (simp add: slice_in_range take_add)
qed

lemma slice_whole: "slice s 0 (int (length s)) = s"
  by (simp add: slice_def relIndex_def Let_def)

lemma slice_prefix: "0 \<le> c \<Longrightarrow> c \<le> int (length v) \<Longrightarrow> slice v 0 c = take (nat c) v"
  by (simp add: slice_def relIndex_def Let_def)

lemma slice_suffix:
  "0 \<le> c \<Longrightarrow> c \<le> int (length v) \<Longrightarrow> slice v c (int (length v)) = drop (nat c) v"
  by (simp add: slice_def relIndex_def Let_def)

lemma sliceFrom_drop: "length v \<le> length s \<Longrightarrow> sliceFrom s (int (length v)) = drop (length v) s"
  by (simp add: sliceFrom_def slice_def relIndex_def Let_def)

lemma startsWith_longer: "startsWith s v \<Longrightarrow> s \<noteq> v \<Longrightarrow> length v < length s"
  unfolding startsWith_def
  by (metis append_take_drop_id le_neq_implies_less length_take min.cobounded1 min_def take_all)

lemma remove_changes:
  assumes "0 < c" "c \<le> int (length v)"
  shows "take (nat (c - 1)) v @ drop (nat c) v \<noteq> v"
proof
  assume "take (nat (c - 1)) v @ drop (nat c) v = v"
  hence "length (take (nat (c - 1)) v @ drop (nat c) v) = length v" by simp
  moreover have "length (take (nat (c - 1)) v) = nat (c - 1)" using assms by simp
  moreover have "length (drop (nat c) v) = length v - nat c" by simp
  ultimately have "nat (c - 1) + (length v - nat c) = length v" by simp
  thus False using assms by linarith
qed

section \<open>Segments over a strictly increasing list of points\<close>

lemma map_start_segmentsOf: "map seg_start (segmentsOf val c ds sc ps) = butlast ps"
  by (induction val c ds sc ps rule: segmentsOf.induct) (auto simp: mkSegment_def)

lemma map_end_segmentsOf: "map seg_end (segmentsOf val c ds sc ps) = tl ps"
  by (induction val c ds sc ps rule: segmentsOf.induct) (auto simp: mkSegment_def)

lemma length_segmentsOf: "length (segmentsOf val c ds sc ps) = length ps - 1"
  by (induction val c ds sc ps rule: segmentsOf.induct) auto

lemma concat_segmentsOf:
  "sorted_wrt (<) (a # ps) \<Longrightarrow> \<forall>p\<in>set (a # ps). 0 \<le> p \<and> p \<le> int (length val) \<Longrightarrow>
     concat (map seg_text (segmentsOf val c ds sc (a # ps))) = slice val a (last (a # ps))"
proof (induction ps arbitrary: a)
  case Nil
  then show ?case by (simp add: slice_in_range)
next
  case (Cons b ps)
  have ab: "a < b" using Cons.prems(1) by simp
  have srt: "sorted_wrt (<) (b # ps)" using Cons.prems(1) by simp
  have rng: "\<forall>p\<in>set (b # ps). 0 \<le> p \<and> p \<le> int (length val)" using Cons.prems(2) by simp
  have ih: "concat (map seg_text (segmentsOf val c ds sc (b # ps))) = slice val b (last (b # ps))"
    using Cons.IH[OF srt rng] .
  have ble: "b \<le> last (b # ps)" using last_strict_sorted[OF srt, of b] by simp
  have lle: "last (b # ps) \<le> int (length val)" using rng by (metis last_in_set list.distinct(1))
  have a0: "0 \<le> a" using Cons.prems(2) by simp
  have "concat (map seg_text (segmentsOf val c ds sc (a # b # ps)))
        = slice val a b @ slice val b (last (b # ps))"
    using ih by (simp add: mkSegment_def)
  also have "\<dots> = slice val a (last (b # ps))"
    using slice_append[of a b "last (b # ps)" val] a0 ab ble lle by simp
  finally show ?case by simp
qed

lemma concat_createSegments:
  "concat (map seg_text (createSegments val c ds sc)) = val"
proof -
  let ?cd = "map (clampDecoration val) ds"
  let ?ps = "points val c ?cd sc"
  obtain a ps where eq: "?ps = a # ps"
    using points_nonempty[of val c ?cd sc] by (cases ?ps) auto
  have "concat (map seg_text (segmentsOf val c ?cd sc ?ps)) = slice val (hd ?ps) (last ?ps)"
    using concat_segmentsOf[of a ps val c ?cd sc] strict_points[of val c ?cd sc]
      points_range[of _ val c ?cd sc] eq by simp
  thus ?thesis by (simp add: createSegments_def Let_def hd_points last_points slice_whole)
qed

lemma nth_segmentsOf:
  "Suc i < length ps \<Longrightarrow>
     segmentsOf val c ds sc ps ! i = mkSegment val c ds sc (ps ! i) (ps ! Suc i)"
proof (induction val c ds sc ps arbitrary: i rule: segmentsOf.induct)
  case (1 val c ds sc a b ps)
  then show ?case by (cases i) auto
qed auto

lemma in_segmentsOf:
  assumes "s \<in> set (segmentsOf val c ds sc ps)"
  obtains i where "Suc i < length ps" "s = mkSegment val c ds sc (ps ! i) (ps ! Suc i)"
proof -
  from assms obtain i where i: "i < length (segmentsOf val c ds sc ps)"
    and s: "s = segmentsOf val c ds sc ps ! i"
    by (auto simp: in_set_conv_nth)
  from i have "Suc i < length ps" by (simp add: length_segmentsOf)
  with s that show thesis by (simp add: nth_segmentsOf)
qed

lemma strict_nth_mono:
  "sorted_wrt (<) ps \<Longrightarrow> i < j \<Longrightarrow> j < length ps \<Longrightarrow> (ps ! i :: int) < ps ! j"
  by (simp add: sorted_wrt_nth_less)

lemma strict_no_between:
  assumes "sorted_wrt (<) ps" "Suc i < length ps" "p \<in> set ps"
  shows "\<not> (ps ! i < p \<and> p < (ps ! Suc i :: int))"
proof
  assume h: "ps ! i < p \<and> p < ps ! Suc i"
  from assms(3) obtain j where j: "j < length ps" "p = ps ! j"
    by (auto simp: in_set_conv_nth)
  show False
  proof (cases "j \<le> i")
    case True
    then have "j = i \<or> j < i" by auto
    then have "ps ! j \<le> ps ! i"
      using strict_nth_mono[OF assms(1), of j i] assms(2) by auto
    with h j show False by simp
  next
    case False
    then have "j = Suc i \<or> Suc i < j" by auto
    then have "ps ! Suc i \<le> ps ! j"
      using strict_nth_mono[OF assms(1), of "Suc i" j] j(1) by auto
    with h j show False by simp
  qed
qed

lemma segment_shape:
  assumes "s \<in> set (createSegments val c ds sc)"
  shows "seg_start s < seg_end s" and "0 \<le> seg_start s" and "seg_end s \<le> int (length val)"
    and "seg_text s = slice val (seg_start s) (seg_end s)"
    and "seg_decorations s =
           filter (\<lambda>dec. dec_start dec < seg_end s \<and> dec_end dec > seg_start s)
             (map (clampDecoration val) ds)"
    and "isCursor s = (sc \<and> seg_start s = c \<and> seg_end s = c + 1)"
proof -
  let ?cd = "map (clampDecoration val) ds"
  let ?ps = "points val c ?cd sc"
  from assms have "s \<in> set (segmentsOf val c ?cd sc ?ps)"
    by (simp add: createSegments_def Let_def)
  then obtain i where i: "Suc i < length ?ps"
    and s: "s = mkSegment val c ?cd sc (?ps ! i) (?ps ! Suc i)"
    by (rule in_segmentsOf)
  have "?ps ! i < ?ps ! Suc i"
    using strict_nth_mono[OF strict_points, of i "Suc i"] i by simp
  thus "seg_start s < seg_end s" using s by (simp add: mkSegment_def)
  have "?ps ! i \<in> set ?ps" using i by simp
  thus "0 \<le> seg_start s" using s points_range[of "?ps ! i"] by (simp add: mkSegment_def)
  have "?ps ! Suc i \<in> set ?ps" using i by simp
  thus "seg_end s \<le> int (length val)"
    using s points_range[of "?ps ! Suc i"] by (simp add: mkSegment_def)
  show "seg_text s = slice val (seg_start s) (seg_end s)" using s by (simp add: mkSegment_def)
  show "seg_decorations s =
           filter (\<lambda>dec. dec_start dec < seg_end s \<and> dec_end dec > seg_start s) ?cd"
    using s by (simp add: mkSegment_def)
  show "isCursor s = (sc \<and> seg_start s = c \<and> seg_end s = c + 1)"
    using s by (simp add: mkSegment_def)
qed

lemma segment_no_straddle:
  assumes "s \<in> set (createSegments val c ds sc)"
    and "p \<in> set (points val c (map (clampDecoration val) ds) sc)"
  shows "\<not> straddles s p"
proof -
  let ?cd = "map (clampDecoration val) ds"
  let ?ps = "points val c ?cd sc"
  from assms(1) have "s \<in> set (segmentsOf val c ?cd sc ?ps)"
    by (simp add: createSegments_def Let_def)
  then obtain i where i: "Suc i < length ?ps"
    and s: "s = mkSegment val c ?cd sc (?ps ! i) (?ps ! Suc i)"
    by (rule in_segmentsOf)
  show ?thesis
    using strict_no_between[OF strict_points i assms(2)] s
    by (simp add: straddles_def mkSegment_def)
qed

lemma straddles_range:
  assumes "s \<in> set (createSegments val c ds sc)" "straddles s p"
  shows "0 \<le> p \<and> p \<le> int (length val)"
  using segment_shape(2,3)[OF assms(1)] assms(2) by (simp add: straddles_def)

lemma cursor_no_straddle:
  assumes "s \<in> set (createSegments val c ds sc)" "sc"
  shows "\<not> straddles s c" and "\<not> straddles s (c + 1)"
proof -
  let ?cd = "map (clampDecoration val) ds"
  show "\<not> straddles s c"
  proof
    assume h: "straddles s c"
    hence "0 \<le> c \<and> c \<le> int (length val)" using straddles_range[OF assms(1)] by simp
    hence "c \<in> set (points val c ?cd sc)" using assms(2)
      by (simp add: set_points cursorPoints_def)
    thus False using segment_no_straddle[OF assms(1)] h by simp
  qed
  show "\<not> straddles s (c + 1)"
  proof
    assume h: "straddles s (c + 1)"
    hence r: "0 \<le> c + 1 \<and> c + 1 \<le> int (length val)"
      using straddles_range[OF assms(1)] by simp
    hence "c + 1 \<in> set (points val c ?cd sc)" using assms(2)
      by (simp add: set_points cursorPoints_def)
    thus False using segment_no_straddle[OF assms(1)] h by simp
  qed
qed

lemma decoration_no_straddle:
  assumes "s \<in> set (createSegments val c ds sc)" "d \<in> set ds"
    and "dec_start (clampDecoration val d) < dec_end (clampDecoration val d)"
  shows "\<not> straddles s (dec_start (clampDecoration val d))"
    and "\<not> straddles s (dec_end (clampDecoration val d))"
proof -
  let ?cd = "map (clampDecoration val) ds"
  let ?d = "clampDecoration val d"
  have in_dec: "dec_start ?d \<in> decPoints ?d" "dec_end ?d \<in> decPoints ?d"
    using assms(3) by (simp_all add: decPoints_def)
  have rng: "0 \<le> dec_start ?d \<and> dec_start ?d \<le> int (length val)"
    "0 \<le> dec_end ?d \<and> dec_end ?d \<le> int (length val)"
    by (simp_all add: clampDecoration_def)
  have mem: "?d \<in> set ?cd" using assms(2) by simp
  have "dec_start ?d \<in> set (points val c ?cd sc)"
    using decPoint_in_points[OF mem in_dec(1)] rng(1) by simp
  thus "\<not> straddles s (dec_start ?d)" using segment_no_straddle[OF assms(1)] by simp
  have "dec_end ?d \<in> set (points val c ?cd sc)"
    using decPoint_in_points[OF mem in_dec(2)] rng(2) by simp
  thus "\<not> straddles s (dec_end ?d)" using segment_no_straddle[OF assms(1)] by simp
qed

lemma contiguous_createSegments:
  assumes "Suc i < length (createSegments val c ds sc)"
  shows "seg_end (createSegments val c ds sc ! i) = seg_start (createSegments val c ds sc ! Suc i)"
proof -
  let ?cd = "map (clampDecoration val) ds"
  let ?ps = "points val c ?cd sc"
  have len: "Suc (Suc i) < length ?ps"
    using assms by (simp add: createSegments_def Let_def length_segmentsOf)
  thus ?thesis
    by (simp add: createSegments_def Let_def nth_segmentsOf mkSegment_def)
qed

lemma length_ge_2: "xs \<noteq> [] \<Longrightarrow> hd xs \<noteq> last xs \<Longrightarrow> 2 \<le> length xs"
  by (cases xs) (auto simp: Suc_le_eq)

lemma hd_butlast: "2 \<le> length xs \<Longrightarrow> hd (butlast xs) = hd xs"
  by (cases xs) auto

lemma last_tl: "2 \<le> length xs \<Longrightarrow> last (tl xs) = last xs"
  by (cases xs) auto

lemma ends_createSegments:
  assumes "val \<noteq> []"
  shows "createSegments val c ds sc \<noteq> []"
    and "seg_start (hd (createSegments val c ds sc)) = 0"
    and "seg_end (last (createSegments val c ds sc)) = int (length val)"
proof -
  define ps where "ps = points val c (map (clampDecoration val) ds) sc"
  define segs where "segs = createSegments val c ds sc"
  have segs: "segs = segmentsOf val c (map (clampDecoration val) ds) sc ps"
    by (simp add: segs_def ps_def createSegments_def Let_def)
  have hd0: "hd ps = 0" and lastn: "last ps = int (length val)" and ne0: "ps \<noteq> []"
    by (simp_all add: ps_def hd_points last_points points_nonempty)
  have "hd ps \<noteq> last ps" using assms hd0 lastn by simp
  hence l2: "2 \<le> length ps" using ne0 by (rule length_ge_2[rotated])
  have "length segs = length ps - 1" unfolding segs by (rule length_segmentsOf)
  hence ne: "segs \<noteq> []" using l2 by auto
  have "seg_start (hd segs) = hd (map seg_start segs)" using ne by (simp add: hd_map)
  also have "map seg_start segs = butlast ps" unfolding segs by (rule map_start_segmentsOf)
  finally have a: "seg_start (hd segs) = 0" using hd_butlast[OF l2] hd0 by simp
  have "seg_end (last segs) = last (map seg_end segs)" using ne by (simp add: last_map)
  also have "map seg_end segs = tl ps" unfolding segs by (rule map_end_segmentsOf)
  finally have b: "seg_end (last segs) = int (length val)" using last_tl[OF l2] lastn by simp
  show "createSegments val c ds sc \<noteq> []"
    and "seg_start (hd (createSegments val c ds sc)) = 0"
    and "seg_end (last (createSegments val c ds sc)) = int (length val)"
    using ne a b by (simp_all add: segs_def)
qed

lemma empty_createSegments: "createSegments [] c ds sc = []"
proof (cases "createSegments [] c ds sc")
  case Nil
  then show ?thesis .
next
  case (Cons s ss)
  hence "s \<in> set (createSegments [] c ds sc)" by simp
  hence "seg_start s < seg_end s \<and> 0 \<le> seg_start s \<and> seg_end s \<le> int (length ([]::string))"
    using segment_shape(1,2,3) by blast
  hence False by auto
  thus ?thesis ..
qed

lemma segs_example:
  "createSegments ''abcdefgh'' 3 [\<lparr>dec_start = - 4, dec_end = 5, dec_style = Error\<rparr>] True =
     [\<lparr>seg_text = ''abc'', seg_start = 0, seg_end = 3, isCursor = False,
        seg_decorations = [\<lparr>dec_start = 0, dec_end = 5, dec_style = Error\<rparr>]\<rparr>,
      \<lparr>seg_text = ''d'', seg_start = 3, seg_end = 4, isCursor = True,
        seg_decorations = [\<lparr>dec_start = 0, dec_end = 5, dec_style = Error\<rparr>]\<rparr>,
      \<lparr>seg_text = ''e'', seg_start = 4, seg_end = 5, isCursor = False,
        seg_decorations = [\<lparr>dec_start = 0, dec_end = 5, dec_style = Error\<rparr>]\<rparr>,
      \<lparr>seg_text = ''fgh'', seg_start = 5, seg_end = 8, isCursor = False,
        seg_decorations = []\<rparr>]"
  by (simp add: seg_defs)

section \<open>Style merge and suggestions\<close>

lemma clampDecoration_clampedRange: "clampDecoration val = clampedRange val"
proof
  fix d :: Decoration
  show "clampDecoration val d = clampedRange val d"
    by (cases d) (simp add: clampDecoration_def clampedRange_def clampInto_def max_def min_def)
qed


lemma fold_assign_lookup:
  "fold (\<lambda>dec merged. objectAssign merged (decorationStyles (dec_style dec))) ds m0 k =
     (case lastWrite ds k of None \<Rightarrow> m0 k | Some x \<Rightarrow> Some x)"
proof (induction ds rule: rev_induct)
  case Nil
  then show ?case by (simp add: lastWrite_def)
next
  case (snoc d ds)
  show ?case
  proof (cases "decorationStyles (dec_style d) k")
    case None
    then have "lastWrite (ds @ [d]) k = lastWrite ds k" by (simp add: lastWrite_def)
    then show ?thesis using snoc None by (simp add: objectAssign_def map_add_def)
  next
    case (Some x)
    then have "lastWrite (ds @ [d]) k = Some x"
      by (simp add: lastWrite_def)
    then show ?thesis using Some by (simp add: objectAssign_def map_add_def)
  qed
qed

lemma suggestionFor_valid:
  "suggestionFor props v = Some s \<Longrightarrow> s \<noteq> [] \<and> startsWith s v \<and> s \<noteq> v"
  by (auto simp: suggestionFor_def validSuggestion_def split: option.splits if_splits)

section \<open>The cursor and the edit operations\<close>

text \<open>
  Claim C1 (cursor clamp invariant: after every operation \<open>0 \<le> cursorOffset \<le> length value\<close>).
  The handler tests the offset it started from, not the offset it is about to store, so the
  clamp acts one event late. From the in-range state \<open>(''Test'', 0)\<close> a left move stores
  \<open>- 1\<close>, and from \<open>(''Test'', 4)\<close> a right move without a suggestion stores \<open>5\<close>.
\<close>

theorem cursor_leaves_range_after_move: "run shownProps \<lparr>wvalue = ''Test'', wstate = \<lparr>cursorOffset = 0, cursorWidth = 0\<rparr>\<rparr> [MoveLeft]
  = \<lparr>wvalue = ''Test'', wstate = \<lparr>cursorOffset = - 1, cursorWidth = 0\<rparr>\<rparr>
  \<and> run shownProps \<lparr>wvalue = ''Test'', wstate = \<lparr>cursorOffset = 4, cursorWidth = 0\<rparr>\<rparr> [MoveRight]
  = \<lparr>wvalue = ''Test'', wstate = \<lparr>cursorOffset = 5, cursorWidth = 0\<rparr>\<rparr>"
  by (simp add: run_def step_def handle_defs ev_defs shownProps_def)

text \<open>
  Claim C9 (delete-left), over the cursor offsets of the data model,
  \<open>0 \<le> cursorOffset \<le> length value\<close>. With \<open>0 < cursorOffset\<close> delete-left removes
  exactly the character before the cursor (the value signalled is the old one without position \<open>cursorOffset - 1\<close>) and
  stores \<open>cursorOffset - 1\<close>; with \<open>cursorOffset = 0\<close> it signals no value change and
  stores offset \<open>0\<close>. Scenario 4: from \<open>(''Test'', 4)\<close> four left moves reach offset
  \<open>0\<close>, and a delete-left after them leaves \<open>(''Test'', 0)\<close>.
\<close>

theorem deleteLeft_in_range:
  "(isDeleteLeft inp key \<and> 0 < cursorOffset st \<and> cursorOffset st \<le> int (length v) \<longrightarrow>
      handleInput props v st inp key =
        \<lparr>setState = Some \<lparr>cursorOffset = cursorOffset st - 1, cursorWidth = 0\<rparr>,
         onChange = Some (take (nat (cursorOffset st - 1)) v @ drop (nat (cursorOffset st)) v),
         onSubmit = None, onSuggestionAccept = None\<rparr>) \<and>
   (isDeleteLeft inp key \<and> cursorOffset st = 0 \<longrightarrow>
      handleInput props v st inp key =
        \<lparr>setState = Some \<lparr>cursorOffset = 0, cursorWidth = 0\<rparr>, onChange = None,
         onSubmit = None, onSuggestionAccept = None\<rparr>) \<and>
   run shownProps \<lparr>wvalue = ''Test'', wstate = \<lparr>cursorOffset = 4, cursorWidth = 0\<rparr>\<rparr>
       [MoveLeft, MoveLeft, MoveLeft, MoveLeft]
     = \<lparr>wvalue = ''Test'', wstate = \<lparr>cursorOffset = 0, cursorWidth = 0\<rparr>\<rparr> \<and>
   run shownProps \<lparr>wvalue = ''Test'', wstate = \<lparr>cursorOffset = 4, cursorWidth = 0\<rparr>\<rparr>
       [MoveLeft, MoveLeft, MoveLeft, MoveLeft, DeleteLeft]
     = \<lparr>wvalue = ''Test'', wstate = \<lparr>cursorOffset = 0, cursorWidth = 0\<rparr>\<rparr>"
proof (intro conjI impI)
  assume h: "isDeleteLeft inp key \<and> 0 < cursorOffset st \<and> cursorOffset st \<le> int (length v)"
  let ?c = "cursorOffset st"
  have a: "slice v 0 (?c - 1) = take (nat (?c - 1)) v" using h by (simp add: slice_prefix)
  have b: "slice v ?c (int (length v)) = drop (nat ?c) v" using h by (simp add: slice_suffix)
  have ne: "take (nat (?c - 1)) v @ drop (nat ?c) v \<noteq> v" using h remove_changes[of "cursorOffset st" v] by blast
  show "handleInput props v st inp key =
        \<lparr>setState = Some \<lparr>cursorOffset = ?c - 1, cursorWidth = 0\<rparr>,
         onChange = Some (take (nat (?c - 1)) v @ drop (nat ?c) v),
         onSubmit = None, onSuggestionAccept = None\<rparr>"
    using h a b ne by (auto simp: handle_defs isDeleteLeft_def)
next
  assume "isDeleteLeft inp key \<and> cursorOffset st = 0"
  then show "handleInput props v st inp key =
        \<lparr>setState = Some \<lparr>cursorOffset = 0, cursorWidth = 0\<rparr>, onChange = None,
         onSubmit = None, onSuggestionAccept = None\<rparr>"
    by (auto simp: handle_defs isDeleteLeft_def)
next
  show "run shownProps \<lparr>wvalue = ''Test'', wstate = \<lparr>cursorOffset = 4, cursorWidth = 0\<rparr>\<rparr>
       [MoveLeft, MoveLeft, MoveLeft, MoveLeft]
     = \<lparr>wvalue = ''Test'', wstate = \<lparr>cursorOffset = 0, cursorWidth = 0\<rparr>\<rparr>"
    by (simp add: run_def step_def handle_defs ev_defs shownProps_def)
  show "run shownProps \<lparr>wvalue = ''Test'', wstate = \<lparr>cursorOffset = 4, cursorWidth = 0\<rparr>\<rparr>
       [MoveLeft, MoveLeft, MoveLeft, MoveLeft, DeleteLeft]
     = \<lparr>wvalue = ''Test'', wstate = \<lparr>cursorOffset = 0, cursorWidth = 0\<rparr>\<rparr>"
    by (simp add: run_def step_def handle_defs ev_defs shownProps_def)
qed

text \<open>
  The statement of C9 at the backspace key, on \<open>''Test''\<close> with the cursor at 2 and at 0.
\<close>

theorem deleteLeft_in_range_witness:
  "isDeleteLeft (fst DeleteLeft) (snd DeleteLeft) \<and>
   handleInput shownProps ''Test'' \<lparr>cursorOffset = 2, cursorWidth = 0\<rparr> (fst DeleteLeft) (snd DeleteLeft)
     = \<lparr>setState = Some \<lparr>cursorOffset = 1, cursorWidth = 0\<rparr>, onChange = Some ''Tst'',
        onSubmit = None, onSuggestionAccept = None\<rparr> \<and>
   handleInput shownProps ''Test'' \<lparr>cursorOffset = 0, cursorWidth = 0\<rparr> (fst DeleteLeft) (snd DeleteLeft)
     = \<lparr>setState = Some \<lparr>cursorOffset = 0, cursorWidth = 0\<rparr>, onChange = None,
        onSubmit = None, onSuggestionAccept = None\<rparr>"
proof -
  have k: "isDeleteLeft (fst DeleteLeft) (snd DeleteLeft)"
    by (simp add: isDeleteLeft_def ev_defs)
  from k deleteLeft_in_range[of "fst DeleteLeft" "snd DeleteLeft" "\<lparr>cursorOffset = 2, cursorWidth = 0\<rparr>" "''Test''" shownProps]
    deleteLeft_in_range[of "fst DeleteLeft" "snd DeleteLeft" "\<lparr>cursorOffset = 0, cursorWidth = 0\<rparr>" "''Test''" shownProps]
  show ?thesis by simp
qed

text \<open>
  Claim C5, as stated, with the cursor hidden: the cursor is at the end of \<open>''sel''\<close> and
  the provider returns the valid suggestion \<open>''select * from users''\<close>, yet a right move
  changes nothing and raises no acceptance.
\<close>

theorem moveRight_hidden_cursor_no_accept: "suggestionFor hiddenProps ''sel'' = Some ''select * from users''
   \<and> cursorOffset \<lparr>cursorOffset = 3, cursorWidth = 0\<rparr> = int (length ''sel'')
   \<and> handleInput hiddenProps ''sel'' \<lparr>cursorOffset = 3, cursorWidth = 0\<rparr> (fst MoveRight) (snd MoveRight)
       = \<lparr>setState = Some \<lparr>cursorOffset = 3, cursorWidth = 0\<rparr>, onChange = None,
          onSubmit = None, onSuggestionAccept = None\<rparr>"
  by (simp add: handle_defs ev_defs hiddenProps_def suggestionFor_def validSuggestion_def
      sqlSuggest_def startsWith_def)

text \<open>
  Claim C5 (accept suggestion), with the cursor shown. In a state with the cursor at the
  end of the value, a right move with a valid suggestion \<open>s\<close> signals \<open>s\<close> as the new value,
  stores the offset \<open>length s\<close> and raises one acceptance carrying \<open>s\<close>; without a valid
  suggestion it raises no acceptance and signals no value change. The plain advance
  stores \<open>cursorOffset + 1\<close> for every cursor inside the value. The offset stored at the
  end of the value without a suggestion is the subject of C1 and is not stated here.
\<close>

theorem moveRight_accepts_or_advances:
  "(isMoveRight inp key \<and> showCursor props \<and> cursorOffset st = int (length v) \<longrightarrow>
      (case suggestionFor props v of
         Some s \<Rightarrow>
           handleInput props v st inp key =
             \<lparr>setState = Some \<lparr>cursorOffset = int (length s), cursorWidth = 0\<rparr>,
              onChange = Some s, onSubmit = None, onSuggestionAccept = Some s\<rparr>
       | None \<Rightarrow>
           onChange (handleInput props v st inp key) = None \<and>
           onSubmit (handleInput props v st inp key) = None \<and>
           onSuggestionAccept (handleInput props v st inp key) = None)) \<and>
   (isMoveRight inp key \<and> showCursor props \<and>
      0 \<le> cursorOffset st \<and> cursorOffset st < int (length v) \<longrightarrow>
      handleInput props v st inp key =
        \<lparr>setState = Some \<lparr>cursorOffset = cursorOffset st + 1, cursorWidth = 0\<rparr>,
         onChange = None, onSubmit = None, onSuggestionAccept = None\<rparr>)"
proof (intro conjI impI)
  assume h: "isMoveRight inp key \<and> showCursor props \<and> cursorOffset st = int (length v)"
  show "case suggestionFor props v of
         Some s \<Rightarrow>
           handleInput props v st inp key =
             \<lparr>setState = Some \<lparr>cursorOffset = int (length s), cursorWidth = 0\<rparr>,
              onChange = Some s, onSubmit = None, onSuggestionAccept = Some s\<rparr>
       | None \<Rightarrow>
           onChange (handleInput props v st inp key) = None \<and>
           onSubmit (handleInput props v st inp key) = None \<and>
           onSuggestionAccept (handleInput props v st inp key) = None"
  proof (cases "suggestionFor props v")
    case None
    then show ?thesis using h
      by (auto simp: handle_defs isMoveRight_def suggestionFor_def validSuggestion_def
          split: option.splits if_splits)
  next
    case (Some s)
    then obtain g where g: "getSuggestion props = Some g" "validSuggestion v (g v)" "g v = Some s"
      by (auto simp: suggestionFor_def split: option.splits if_splits)
    have "s \<noteq> v" using suggestionFor_valid[OF Some] by simp
    then show ?thesis using h Some g
      by (simp add: handle_defs isMoveRight_def)
  qed
next
  assume h: "isMoveRight inp key \<and> showCursor props \<and>
      0 \<le> cursorOffset st \<and> cursorOffset st < int (length v)"
  then show "handleInput props v st inp key =
        \<lparr>setState = Some \<lparr>cursorOffset = cursorOffset st + 1, cursorWidth = 0\<rparr>,
         onChange = None, onSubmit = None, onSuggestionAccept = None\<rparr>"
    by (auto simp: handle_defs isMoveRight_def split: option.splits)
qed

text \<open>
  The statement of C5 on \<open>''sel''\<close>: with the cursor at the end, with and without the
  suggestion provider, and with the cursor at 1.
\<close>

theorem moveRight_accepts_or_advances_witness:
  "isMoveRight (fst MoveRight) (snd MoveRight) \<and> showCursor suggestProps \<and>
   showCursor shownProps \<and>
   cursorOffset \<lparr>cursorOffset = 3, cursorWidth = 0\<rparr> = int (length ''sel'') \<and>
   suggestionFor suggestProps ''sel'' = Some ''select * from users'' \<and>
   handleInput suggestProps ''sel'' \<lparr>cursorOffset = 3, cursorWidth = 0\<rparr> (fst MoveRight) (snd MoveRight)
     = \<lparr>setState = Some \<lparr>cursorOffset = 19, cursorWidth = 0\<rparr>,
        onChange = Some ''select * from users'', onSubmit = None,
        onSuggestionAccept = Some ''select * from users''\<rparr> \<and>
   suggestionFor shownProps ''sel'' = None \<and>
   onChange (handleInput shownProps ''sel'' \<lparr>cursorOffset = 3, cursorWidth = 0\<rparr>
               (fst MoveRight) (snd MoveRight)) = None \<and>
   onSuggestionAccept (handleInput shownProps ''sel'' \<lparr>cursorOffset = 3, cursorWidth = 0\<rparr>
               (fst MoveRight) (snd MoveRight)) = None \<and>
   handleInput suggestProps ''sel'' \<lparr>cursorOffset = 1, cursorWidth = 0\<rparr> (fst MoveRight) (snd MoveRight)
     = \<lparr>setState = Some \<lparr>cursorOffset = 2, cursorWidth = 0\<rparr>,
        onChange = None, onSubmit = None, onSuggestionAccept = None\<rparr>"
proof -
  have k: "isMoveRight (fst MoveRight) (snd MoveRight)" by (simp add: isMoveRight_def ev_defs)
  have s1: "suggestionFor suggestProps ''sel'' = Some ''select * from users''"
    by (simp add: suggestionFor_def suggestProps_def validSuggestion_def sqlSuggest_def
        startsWith_def)
  have s2: "suggestionFor shownProps ''sel'' = None"
    by (simp add: suggestionFor_def shownProps_def)
  have p1: "showCursor suggestProps" by (simp add: suggestProps_def)
  have p2: "showCursor shownProps" by (simp add: shownProps_def)
  from moveRight_accepts_or_advances[of "fst MoveRight" "snd MoveRight" suggestProps
      "\<lparr>cursorOffset = 3, cursorWidth = 0\<rparr>" "''sel''"]
    moveRight_accepts_or_advances[of "fst MoveRight" "snd MoveRight" shownProps
      "\<lparr>cursorOffset = 3, cursorWidth = 0\<rparr>" "''sel''"]
    moveRight_accepts_or_advances[of "fst MoveRight" "snd MoveRight" suggestProps
      "\<lparr>cursorOffset = 1, cursorWidth = 0\<rparr>" "''sel''"]
    s1 s2 k p1 p2
  show ?thesis by simp
qed

text \<open>
  Claim C10, as stated, at a stored offset that drifted out of range: with the cursor
  hidden, the empty value and stored offset \<open>3\<close>, a right move stores offset \<open>0\<close>.
\<close>

theorem moveRight_hidden_clamps_drift:
  "\<not> showCursor hiddenProps \<and>
   handleInput hiddenProps '''' \<lparr>cursorOffset = 3, cursorWidth = 0\<rparr> (fst MoveRight) (snd MoveRight)
     = \<lparr>setState = Some \<lparr>cursorOffset = 0, cursorWidth = 0\<rparr>, onChange = None,
        onSubmit = None, onSuggestionAccept = None\<rparr>"
  by (simp add: handle_defs ev_defs hiddenProps_def)

text \<open>
  Claim C10 (hidden cursor). With \<open>showCursor\<close> false a right move raises no acceptance
  and signals no value change, and the offset it stores is the old one clamped into
  \<open>[0, length value]\<close>: an offset inside the range is stored unchanged. The ghost text does
  not depend on \<open>showCursor\<close>, and it is \<open>''ect * from users''\<close> for \<open>''sel''\<close> with
  the cursor hidden.
\<close>

theorem moveRight_hidden_cursor_inert:
  "(isMoveRight inp key \<and> \<not> showCursor props \<longrightarrow>
      handleInput props v st inp key =
        \<lparr>setState = Some \<lparr>cursorOffset = max 0 (min (cursorOffset st) (int (length v))),
                            cursorWidth = 0\<rparr>,
         onChange = None, onSubmit = None, onSuggestionAccept = None\<rparr>) \<and>
   (isMoveRight inp key \<and> \<not> showCursor props \<and>
      0 \<le> cursorOffset st \<and> cursorOffset st \<le> int (length v) \<longrightarrow>
      setState (handleInput props v st inp key) =
        Some \<lparr>cursorOffset = cursorOffset st, cursorWidth = 0\<rparr>) \<and>
   ghostText (props\<lparr>showCursor := b\<rparr>) v st = ghostText props v st \<and>
   ghostText hiddenProps ''sel'' \<lparr>cursorOffset = 3, cursorWidth = 0\<rparr> = ''ect * from users''"
proof (intro conjI impI)
  assume h: "isMoveRight inp key \<and> \<not> showCursor props"
  then show "handleInput props v st inp key =
        \<lparr>setState = Some \<lparr>cursorOffset = max 0 (min (cursorOffset st) (int (length v))),
                            cursorWidth = 0\<rparr>,
         onChange = None, onSubmit = None, onSuggestionAccept = None\<rparr>"
    by (auto simp: handle_defs isMoveRight_def)
next
  assume h: "isMoveRight inp key \<and> \<not> showCursor props \<and>
      0 \<le> cursorOffset st \<and> cursorOffset st \<le> int (length v)"
  then show "setState (handleInput props v st inp key) =
        Some \<lparr>cursorOffset = cursorOffset st, cursorWidth = 0\<rparr>"
    by (auto simp: handle_defs isMoveRight_def)
next
  show "ghostText (props\<lparr>showCursor := b\<rparr>) v st = ghostText props v st"
    by (simp add: ghostText_def split: option.splits)
  show "ghostText hiddenProps ''sel'' \<lparr>cursorOffset = 3, cursorWidth = 0\<rparr> = ''ect * from users''"
    by (simp add: ghostText_def hiddenProps_def sqlSuggest_def validSuggestion_def startsWith_def
        sliceFrom_def slice_def relIndex_def)
qed

text \<open>
  The statement of C10 on \<open>''sel''\<close> with the cursor hidden at offset 3: the ghost text
  is displayed and the right move leaves everything as it is.
\<close>

theorem moveRight_hidden_cursor_inert_witness:
  "isMoveRight (fst MoveRight) (snd MoveRight) \<and> \<not> showCursor hiddenProps \<and>
   ghostText hiddenProps ''sel'' \<lparr>cursorOffset = 3, cursorWidth = 0\<rparr> = ''ect * from users'' \<and>
   handleInput hiddenProps ''sel'' \<lparr>cursorOffset = 3, cursorWidth = 0\<rparr> (fst MoveRight) (snd MoveRight)
     = \<lparr>setState = Some \<lparr>cursorOffset = 3, cursorWidth = 0\<rparr>, onChange = None,
        onSubmit = None, onSuggestionAccept = None\<rparr>"
proof -
  have k: "isMoveRight (fst MoveRight) (snd MoveRight)" by (simp add: isMoveRight_def ev_defs)
  have p: "\<not> showCursor hiddenProps" by (simp add: hiddenProps_def)
  from k p moveRight_hidden_cursor_inert[of "fst MoveRight" "snd MoveRight" hiddenProps "''sel''"
      "\<lparr>cursorOffset = 3, cursorWidth = 0\<rparr>" False]
  show ?thesis by simp
qed

section \<open>Reconciliation with an outside value\<close>

text \<open>
  Claim C4, as stated, with the cursor hidden: the stored offset \<open>2\<close> exceeds the
  length of the empty value minus one, and the state is left as it is.
\<close>

theorem reconcile_hidden_cursor_keeps_drift: "cursorOffset \<lparr>cursorOffset = 2, cursorWidth = 0\<rparr> > int (length '''') - 1
   \<and> reconcile hiddenProps '''' \<lparr>cursorOffset = 2, cursorWidth = 0\<rparr>
       = \<lparr>cursorOffset = 2, cursorWidth = 0\<rparr>
   \<and> reconcile hiddenProps '''' \<lparr>cursorOffset = 2, cursorWidth = 0\<rparr>
       \<noteq> \<lparr>cursorOffset = int (length ''''), cursorWidth = 0\<rparr>"
  by (simp add: reconcile_def hiddenProps_def)

text \<open>
  Claim C4 (reconciliation), gated as the effect is. When the widget has the focus and
  shows the cursor, and the stored offset exceeds \<open>length value - 1\<close>, the state becomes
  \<open>(length value, 0)\<close>; in every other case the state is unchanged.
\<close>

theorem reconcile_resets_when_shown: "reconcile props v st =
   (if focus props \<and> showCursor props \<and> cursorOffset st > int (length v) - 1
    then \<lparr>cursorOffset = int (length v), cursorWidth = 0\<rparr> else st)"
  by (simp add: reconcile_def)

text \<open>
  The statement of C4 after the value shrank to the empty string, and with a value
  \<open>''abc''\<close> that still contains the cursor.
\<close>

theorem reconcile_resets_when_shown_witness: "reconcile suggestProps '''' \<lparr>cursorOffset = 2, cursorWidth = 5\<rparr> = \<lparr>cursorOffset = 0, cursorWidth = 0\<rparr>
  \<and> reconcile suggestProps ''abc'' \<lparr>cursorOffset = 2, cursorWidth = 5\<rparr> = \<lparr>cursorOffset = 2, cursorWidth = 5\<rparr>"
  using reconcile_resets_when_shown[of suggestProps "''''" "\<lparr>cursorOffset = 2, cursorWidth = 5\<rparr>"]
    reconcile_resets_when_shown[of suggestProps "''abc''" "\<lparr>cursorOffset = 2, cursorWidth = 5\<rparr>"]
  by (simp add: suggestProps_def)

section \<open>Ghost text\<close>

text \<open>
  Claim C6 (suggestion prefix law). The ghost text is a function of the properties, the
  value and the state that returns a string only; the value is read, never written. It is
  non-empty only when the widget has the focus, the cursor is at the end of the value and
  the provider returns a string that starts with the value and is longer; the ghost text
  is then that string without its first \<open>length value\<close> characters, so that the value
  followed by the ghost text is the suggestion. Conversely every such suggestion gives a
  non-empty ghost text.
\<close>

theorem ghostText_proper_extension:
  "(ghostText props v st \<noteq> [] \<longrightarrow>
      focus props \<and> cursorOffset st = int (length v) \<and>
      (\<exists>g s. getSuggestion props = Some g \<and> g v = Some s \<and> startsWith s v \<and>
             length v < length s \<and> ghostText props v st = drop (length v) s \<and>
             v @ ghostText props v st = s)) \<and>
   (focus props \<and> cursorOffset st = int (length v) \<and> getSuggestion props = Some g \<and>
      g v = Some s \<and> startsWith s v \<and> length v < length s \<longrightarrow>
      ghostText props v st = drop (length v) s \<and> ghostText props v st \<noteq> [])"
proof (intro conjI impI)
  assume ne: "ghostText props v st \<noteq> []"
  then obtain g where g: "getSuggestion props = Some g"
    by (auto simp: ghostText_def split: option.splits)
  from ne g have fc: "focus props \<and> cursorOffset st = int (length v)"
    by (auto simp: ghostText_def split: if_splits)
  from ne g fc have val: "validSuggestion v (g v)"
    by (auto simp: ghostText_def split: if_splits)
  then obtain s where s: "g v = Some s" "s \<noteq> []" "startsWith s v" "s \<noteq> v"
    by (auto simp: validSuggestion_def split: option.splits)
  have lt: "length v < length s" using startsWith_longer s by simp
  have gt: "ghostText props v st = drop (length v) s"
    using g fc val s lt by (simp add: ghostText_def sliceFrom_drop)
  have "v @ drop (length v) s = s" using s(3) unfolding startsWith_def
    by (metis append_take_drop_id)
  with s lt gt g
  have "\<exists>g s. getSuggestion props = Some g \<and> g v = Some s \<and> startsWith s v \<and>
             length v < length s \<and> ghostText props v st = drop (length v) s \<and>
             v @ ghostText props v st = s" by auto
  with fc show "focus props" "cursorOffset st = int (length v)"
    "\<exists>g s. getSuggestion props = Some g \<and> g v = Some s \<and> startsWith s v \<and>
             length v < length s \<and> ghostText props v st = drop (length v) s \<and>
             v @ ghostText props v st = s" by auto
next
  assume h: "focus props \<and> cursorOffset st = int (length v) \<and> getSuggestion props = Some g \<and>
      g v = Some s \<and> startsWith s v \<and> length v < length s"
  hence "validSuggestion v (g v)" by (auto simp: validSuggestion_def)
  with h show "ghostText props v st = drop (length v) s"
    by (simp add: ghostText_def sliceFrom_drop)
  with h show "ghostText props v st \<noteq> []" by simp
qed

text \<open>
  The statement of C6 on Scenario 3: value \<open>''sel''\<close>, cursor at the end.
\<close>

theorem ghostText_proper_extension_witness:
  "focus suggestProps \<and>
   cursorOffset \<lparr>cursorOffset = 3, cursorWidth = 0\<rparr> = int (length ''sel'') \<and>
   getSuggestion suggestProps = Some sqlSuggest \<and>
   sqlSuggest ''sel'' = Some ''select * from users'' \<and>
   startsWith ''select * from users'' ''sel'' \<and> length ''sel'' < length ''select * from users'' \<and>
   ghostText suggestProps ''sel'' \<lparr>cursorOffset = 3, cursorWidth = 0\<rparr> \<noteq> [] \<and>
   ghostText suggestProps ''sel'' \<lparr>cursorOffset = 3, cursorWidth = 0\<rparr> = ''ect * from users''"
proof -
  have a: "focus suggestProps \<and>
      cursorOffset \<lparr>cursorOffset = 3, cursorWidth = 0\<rparr> = int (length ''sel'') \<and>
      getSuggestion suggestProps = Some sqlSuggest \<and>
      sqlSuggest ''sel'' = Some ''select * from users'' \<and>
      startsWith ''select * from users'' ''sel'' \<and> length ''sel'' < length ''select * from users''"
    by (simp add: suggestProps_def sqlSuggest_def startsWith_def)
  have "ghostText suggestProps ''sel'' \<lparr>cursorOffset = 3, cursorWidth = 0\<rparr>
          = drop (length ''sel'') ''select * from users'' \<and>
        ghostText suggestProps ''sel'' \<lparr>cursorOffset = 3, cursorWidth = 0\<rparr> \<noteq> []"
    using ghostText_proper_extension[of suggestProps "''sel''" "\<lparr>cursorOffset = 3, cursorWidth = 0\<rparr>" sqlSuggest
      "''select * from users''"] a by blast
  with a show ?thesis by simp
qed

section \<open>The partition into segments\<close>

text \<open>
  Claim C2 (partition completeness), for every value, integer cursor offset, decoration
  list and \<open>showCursor\<close>. The texts of the segments concatenate to the value; every
  segment has \<open>0 \<le> start < end \<le> length value\<close> and its text is the slice of the value
  between them; each segment ends where the next starts; for a non-empty value the first
  segment starts at 0 and the last ends at \<open>length value\<close> (the empty value has no
  segment); and no segment has strictly inside its span the cursor offset or the offset
  after it (when the cursor is shown), or an end of a decoration that is non-empty after
  clamping.
\<close>

theorem createSegments_partition:
  "concat (map seg_text (createSegments val c ds sc)) = val \<and>
   (\<forall>s\<in>set (createSegments val c ds sc).
      0 \<le> seg_start s \<and> seg_start s < seg_end s \<and> seg_end s \<le> int (length val) \<and>
      seg_text s = slice val (seg_start s) (seg_end s)) \<and>
   (\<forall>i. Suc i < length (createSegments val c ds sc) \<longrightarrow>
      seg_end (createSegments val c ds sc ! i) = seg_start (createSegments val c ds sc ! Suc i)) \<and>
   (val \<noteq> [] \<longrightarrow> createSegments val c ds sc \<noteq> [] \<and>
      seg_start (hd (createSegments val c ds sc)) = 0 \<and>
      seg_end (last (createSegments val c ds sc)) = int (length val)) \<and>
   (val = [] \<longrightarrow> createSegments val c ds sc = []) \<and>
   (\<forall>s\<in>set (createSegments val c ds sc).
      (sc \<longrightarrow> \<not> straddles s c \<and> \<not> straddles s (c + 1)) \<and>
      (\<forall>d\<in>set ds. dec_start (clampDecoration val d) < dec_end (clampDecoration val d) \<longrightarrow>
         \<not> straddles s (dec_start (clampDecoration val d)) \<and>
         \<not> straddles s (dec_end (clampDecoration val d))))"
proof (intro conjI)
  show "concat (map seg_text (createSegments val c ds sc)) = val"
    by (rule concat_createSegments)
  show "\<forall>s\<in>set (createSegments val c ds sc).
      0 \<le> seg_start s \<and> seg_start s < seg_end s \<and> seg_end s \<le> int (length val) \<and>
      seg_text s = slice val (seg_start s) (seg_end s)"
    using segment_shape(1,2,3,4) by blast
  show "\<forall>i. Suc i < length (createSegments val c ds sc) \<longrightarrow>
      seg_end (createSegments val c ds sc ! i) = seg_start (createSegments val c ds sc ! Suc i)"
    using contiguous_createSegments by blast
  show "val \<noteq> [] \<longrightarrow> createSegments val c ds sc \<noteq> [] \<and>
      seg_start (hd (createSegments val c ds sc)) = 0 \<and>
      seg_end (last (createSegments val c ds sc)) = int (length val)"
    using ends_createSegments by blast
  show "val = [] \<longrightarrow> createSegments val c ds sc = []"
    using empty_createSegments by blast
  show "\<forall>s\<in>set (createSegments val c ds sc).
      (sc \<longrightarrow> \<not> straddles s c \<and> \<not> straddles s (c + 1)) \<and>
      (\<forall>d\<in>set ds. dec_start (clampDecoration val d) < dec_end (clampDecoration val d) \<longrightarrow>
         \<not> straddles s (dec_start (clampDecoration val d)) \<and>
         \<not> straddles s (dec_end (clampDecoration val d)))"
  proof (intro ballI conjI impI)
    fix s assume s: "s \<in> set (createSegments val c ds sc)"
    { assume sc
      then show "\<not> straddles s c" and "\<not> straddles s (c + 1)"
        using cursor_no_straddle[OF s] by simp_all }
    fix d assume d: "d \<in> set ds"
      and lt: "dec_start (clampDecoration val d) < dec_end (clampDecoration val d)"
    show "\<not> straddles s (dec_start (clampDecoration val d))"
      and "\<not> straddles s (dec_end (clampDecoration val d))"
      using decoration_no_straddle[OF s d lt] by simp_all
  qed
qed

text \<open>
  The statement of C2 on \<open>''abcdefgh''\<close> with the cursor shown at 3 and an error
  decoration from \<open>- 4\<close> to 5.
\<close>

theorem createSegments_partition_witness:
  "concat (map seg_text
     (createSegments ''abcdefgh'' 3 [\<lparr>dec_start = - 4, dec_end = 5, dec_style = Error\<rparr>] True))
     = ''abcdefgh'' \<and>
   \<lparr>seg_text = ''e'', seg_start = 4, seg_end = 5, isCursor = False,
        seg_decorations = [\<lparr>dec_start = 0, dec_end = 5, dec_style = Error\<rparr>]\<rparr>
     \<in> set (createSegments ''abcdefgh'' 3
              [\<lparr>dec_start = - 4, dec_end = 5, dec_style = Error\<rparr>] True) \<and>
   Suc 1 < length (createSegments ''abcdefgh'' 3
              [\<lparr>dec_start = - 4, dec_end = 5, dec_style = Error\<rparr>] True) \<and>
   seg_end (createSegments ''abcdefgh'' 3
              [\<lparr>dec_start = - 4, dec_end = 5, dec_style = Error\<rparr>] True ! 1) =
   seg_start (createSegments ''abcdefgh'' 3
              [\<lparr>dec_start = - 4, dec_end = 5, dec_style = Error\<rparr>] True ! Suc 1) \<and>
   ''abcdefgh'' \<noteq> [] \<and>
   seg_end (last (createSegments ''abcdefgh'' 3
              [\<lparr>dec_start = - 4, dec_end = 5, dec_style = Error\<rparr>] True)) = 8 \<and>
   \<lparr>dec_start = - 4, dec_end = 5, dec_style = Error\<rparr>
     \<in> set [\<lparr>dec_start = - 4, dec_end = 5, dec_style = Error\<rparr>] \<and>
   dec_start (clampDecoration ''abcdefgh'' \<lparr>dec_start = - 4, dec_end = 5, dec_style = Error\<rparr>)
     < dec_end (clampDecoration ''abcdefgh'' \<lparr>dec_start = - 4, dec_end = 5, dec_style = Error\<rparr>) \<and>
   \<not> straddles \<lparr>seg_text = ''e'', seg_start = 4, seg_end = 5, isCursor = False,
        seg_decorations = [\<lparr>dec_start = 0, dec_end = 5, dec_style = Error\<rparr>]\<rparr> 3 \<and>
   \<not> straddles \<lparr>seg_text = ''e'', seg_start = 4, seg_end = 5, isCursor = False,
        seg_decorations = [\<lparr>dec_start = 0, dec_end = 5, dec_style = Error\<rparr>]\<rparr>
       (dec_end (clampDecoration ''abcdefgh'' \<lparr>dec_start = - 4, dec_end = 5, dec_style = Error\<rparr>))"
  using createSegments_partition[of "''abcdefgh''" 3 "[\<lparr>dec_start = - 4, dec_end = 5, dec_style = Error\<rparr>]" True]
  unfolding segs_example
  by (simp add: clampDecoration_def straddles_def)

text \<open>
  Claim C3 (a decoration that is empty after clamping is dropped). It adds no split
  point, but the overlap filter runs over all clamped decorations: on \<open>''abcdef''\<close> the
  empty decoration \<open>[3, 3)\<close> is attached to the single segment \<open>[0, 6)\<close>.
\<close>

theorem createSegments_attaches_empty_decoration: "createSegments ''abcdef'' 0 [\<lparr>dec_start = 3, dec_end = 3, dec_style = Error\<rparr>] False
   = [\<lparr>seg_text = ''abcdef'', seg_start = 0, seg_end = 6, isCursor = False,
       seg_decorations = [\<lparr>dec_start = 3, dec_end = 3, dec_style = Error\<rparr>]\<rparr>]"
  by (simp add: createSegments_def points_def splitPoints_def addCursorPoints_def
      addDecorationPoints_def setAdd_def clampDecoration_def mkSegment_def slice_def
      relIndex_def Let_def)

text \<open>
  Claim C7 (attached decorations). The decorations of a segment \<open>[a, b)\<close> are exactly
  the clamped decorations with \<open>start < b\<close> and \<open>end > a\<close>, in list order, where a
  clamped decoration has both ends clamped into \<open>[0, length value]\<close> and its style
  kept; so every attached decoration lies inside the value and overlaps the segment, and
  a decoration that ends where the segment starts, or starts where it ends, is not
  attached. Scenario 5: the error decoration \<open>[0, 3)\<close> on \<open>''selct''\<close> with the cursor at
  the end gives \<open>''sel''\<close> carrying it and \<open>''ct''\<close> carrying nothing, whether the cursor is
  shown or not. The decorations \<open>[- 4, 3)\<close> and \<open>[3, 50)\<close> on the same value are attached
  as \<open>[0, 3)\<close> to \<open>''sel''\<close> and as \<open>[3, 5)\<close> to \<open>''ct''\<close>.
\<close>

theorem segment_decorations_overlap:
  "(\<forall>s\<in>set (createSegments val c ds sc).
      seg_decorations s =
        filter (\<lambda>d. dec_start d < seg_end s \<and> dec_end d > seg_start s)
          (map (clampedRange val) ds) \<and>
      (\<forall>d\<in>set (seg_decorations s).
         0 \<le> dec_start d \<and> dec_start d \<le> int (length val) \<and>
         0 \<le> dec_end d \<and> dec_end d \<le> int (length val) \<and>
         dec_start d < seg_end s \<and> seg_start s < dec_end d) \<and>
      (\<forall>d\<in>set ds. dec_end (clampedRange val d) \<le> seg_start s \<or>
                   seg_end s \<le> dec_start (clampedRange val d) \<longrightarrow>
                   clampedRange val d \<notin> set (seg_decorations s))) \<and>
   createSegments ''selct'' 5 [\<lparr>dec_start = 0, dec_end = 3, dec_style = Error\<rparr>] b =
     [\<lparr>seg_text = ''sel'', seg_start = 0, seg_end = 3, isCursor = False,
       seg_decorations = [\<lparr>dec_start = 0, dec_end = 3, dec_style = Error\<rparr>]\<rparr>,
      \<lparr>seg_text = ''ct'', seg_start = 3, seg_end = 5, isCursor = False,
       seg_decorations = []\<rparr>] \<and>
   createSegments ''selct'' 5 outOfRangePair b =
     [\<lparr>seg_text = ''sel'', seg_start = 0, seg_end = 3, isCursor = False,
       seg_decorations = [\<lparr>dec_start = 0, dec_end = 3, dec_style = Error\<rparr>]\<rparr>,
      \<lparr>seg_text = ''ct'', seg_start = 3, seg_end = 5, isCursor = False,
       seg_decorations = [\<lparr>dec_start = 3, dec_end = 5, dec_style = Highlight\<rparr>]\<rparr>]"
proof (intro conjI)
  show "\<forall>s\<in>set (createSegments val c ds sc).
      seg_decorations s =
        filter (\<lambda>d. dec_start d < seg_end s \<and> dec_end d > seg_start s)
          (map (clampedRange val) ds) \<and>
      (\<forall>d\<in>set (seg_decorations s).
         0 \<le> dec_start d \<and> dec_start d \<le> int (length val) \<and>
         0 \<le> dec_end d \<and> dec_end d \<le> int (length val) \<and>
         dec_start d < seg_end s \<and> seg_start s < dec_end d) \<and>
      (\<forall>d\<in>set ds. dec_end (clampedRange val d) \<le> seg_start s \<or>
                   seg_end s \<le> dec_start (clampedRange val d) \<longrightarrow>
                   clampedRange val d \<notin> set (seg_decorations s))"
  proof (rule ballI, intro conjI)
    fix s assume s: "s \<in> set (createSegments val c ds sc)"
    show eq: "seg_decorations s =
        filter (\<lambda>d. dec_start d < seg_end s \<and> dec_end d > seg_start s)
          (map (clampedRange val) ds)"
      using segment_shape(5)[OF s] by (simp add: clampDecoration_clampedRange)
    show "\<forall>d\<in>set (seg_decorations s).
         0 \<le> dec_start d \<and> dec_start d \<le> int (length val) \<and>
         0 \<le> dec_end d \<and> dec_end d \<le> int (length val) \<and>
         dec_start d < seg_end s \<and> seg_start s < dec_end d"
      unfolding eq by (auto simp: clampedRange_def clampInto_def)
    show "\<forall>d\<in>set ds. dec_end (clampedRange val d) \<le> seg_start s \<or>
                   seg_end s \<le> dec_start (clampedRange val d) \<longrightarrow>
                   clampedRange val d \<notin> set (seg_decorations s)"
      unfolding eq by auto
  qed
next
  show "createSegments ''selct'' 5 [\<lparr>dec_start = 0, dec_end = 3, dec_style = Error\<rparr>] b =
     [\<lparr>seg_text = ''sel'', seg_start = 0, seg_end = 3, isCursor = False,
       seg_decorations = [\<lparr>dec_start = 0, dec_end = 3, dec_style = Error\<rparr>]\<rparr>,
      \<lparr>seg_text = ''ct'', seg_start = 3, seg_end = 5, isCursor = False,
       seg_decorations = []\<rparr>]"
    by (cases b) (simp_all add: seg_defs)
  show "createSegments ''selct'' 5 outOfRangePair b =
     [\<lparr>seg_text = ''sel'', seg_start = 0, seg_end = 3, isCursor = False,
       seg_decorations = [\<lparr>dec_start = 0, dec_end = 3, dec_style = Error\<rparr>]\<rparr>,
      \<lparr>seg_text = ''ct'', seg_start = 3, seg_end = 5, isCursor = False,
       seg_decorations = [\<lparr>dec_start = 3, dec_end = 5, dec_style = Highlight\<rparr>]\<rparr>]"
    by (cases b) (simp_all add: seg_defs outOfRangePair_def)
qed

text \<open>
  The statement of C7 on the second segment of \<open>''selct''\<close> under the two decorations
  that reach beyond the value: the highlight is attached with its end clamped from 50 to
  5, and the error decoration, clamped to \<open>[0, 3)\<close>, only touches the segment.
\<close>

theorem segment_decorations_overlap_witness:
  "\<lparr>seg_text = ''ct'', seg_start = 3, seg_end = 5, isCursor = False,
     seg_decorations = [\<lparr>dec_start = 3, dec_end = 5, dec_style = Highlight\<rparr>]\<rparr>
     \<in> set (createSegments ''selct'' 5 outOfRangePair True) \<and>
   filter (\<lambda>d. dec_start d < 5 \<and> dec_end d > 3) (map (clampedRange ''selct'') outOfRangePair)
     = [\<lparr>dec_start = 3, dec_end = 5, dec_style = Highlight\<rparr>] \<and>
   \<lparr>dec_start = - 4, dec_end = 3, dec_style = Error\<rparr> \<in> set outOfRangePair \<and>
   clampedRange ''selct'' \<lparr>dec_start = - 4, dec_end = 3, dec_style = Error\<rparr>
     = \<lparr>dec_start = 0, dec_end = 3, dec_style = Error\<rparr> \<and>
   \<lparr>dec_start = 0, dec_end = 3, dec_style = Error\<rparr>
     \<notin> set [\<lparr>dec_start = 3, dec_end = 5, dec_style = Highlight\<rparr>]"
  using segment_decorations_overlap[of "''selct''" 5 outOfRangePair True True]
  by (simp add: clampedRange_def clampInto_def outOfRangePair_def)

text \<open>
  Claim C8 (decoration merge order). The merged style of a non-empty decoration list
  gives every attribute the value written last in list order. For the error decoration
  \<open>[0, 5)\<close> followed by the highlight \<open>[2, 8)\<close> on \<open>''abcdefgh''\<close>, every segment
  inside \<open>[2, 5)\<close> carries both, and its merged style has the colour and underline of
  the error style and the background of the highlight; with the cursor hidden the
  segments are \<open>[0, 2)\<close>, \<open>[2, 5)\<close> and \<open>[5, 8)\<close>.
\<close>

theorem mergeDecorationStyles_last_write_wins:
  "(ds \<noteq> [] \<longrightarrow> (\<exists>m. mergeDecorationStyles ds = Some m \<and> (\<forall>k. m k = lastWrite ds k))) \<and>
   (\<forall>s\<in>set (createSegments ''abcdefgh'' c errorAndHighlight sc).
      2 \<le> seg_start s \<and> seg_end s \<le> 5 \<longrightarrow>
      seg_decorations s = errorAndHighlight \<and>
      mergeDecorationStyles (seg_decorations s) =
        Some [''color'' \<mapsto> Str ''red'', ''underline'' \<mapsto> Bool True,
              ''backgroundColor'' \<mapsto> Str ''yellow'']) \<and>
   map (\<lambda>s. (seg_start s, seg_end s)) (createSegments ''abcdefgh'' c errorAndHighlight False)
     = [(0, 2), (2, 5), (5, 8)]"
proof (intro conjI impI ballI)
  assume "ds \<noteq> []"
  then have "mergeDecorationStyles ds =
     Some (fold (\<lambda>dec merged. objectAssign merged (decorationStyles (dec_style dec))) ds Map.empty)"
    by (simp add: mergeDecorationStyles_def)
  moreover have "\<forall>k. fold (\<lambda>dec merged. objectAssign merged (decorationStyles (dec_style dec))) ds Map.empty k
      = lastWrite ds k"
    by (simp add: fold_assign_lookup split: option.splits)
  ultimately show "\<exists>m. mergeDecorationStyles ds = Some m \<and> (\<forall>k. m k = lastWrite ds k)"
    by blast
next
  fix s assume s: "s \<in> set (createSegments ''abcdefgh'' c errorAndHighlight sc)"
    and r: "2 \<le> seg_start s \<and> seg_end s \<le> 5"
  have lt: "seg_start s < seg_end s" using segment_shape(1)[OF s] .
  have "seg_decorations s =
           filter (\<lambda>dec. dec_start dec < seg_end s \<and> dec_end dec > seg_start s)
             (map (clampDecoration ''abcdefgh'') errorAndHighlight)"
    using segment_shape(5)[OF s] .
  then show d: "seg_decorations s = errorAndHighlight"
    using lt r by (simp add: errorAndHighlight_def clampDecoration_def)
  show "mergeDecorationStyles (seg_decorations s) =
        Some [''color'' \<mapsto> Str ''red'', ''underline'' \<mapsto> Bool True,
              ''backgroundColor'' \<mapsto> Str ''yellow'']"
    unfolding d by (simp add: errorAndHighlight_def mergeDecorationStyles_def objectAssign_def)
next
  show "map (\<lambda>s. (seg_start s, seg_end s)) (createSegments ''abcdefgh'' c errorAndHighlight False)
     = [(0, 2), (2, 5), (5, 8)]"
    by (simp add: seg_defs errorAndHighlight_def)
qed

text \<open>
  The statement of C8 on the segment \<open>''cde''\<close>, with the cursor shown at the end.
\<close>

theorem mergeDecorationStyles_last_write_wins_witness:
  "errorAndHighlight \<noteq> [] \<and>
   (\<exists>m. mergeDecorationStyles errorAndHighlight = Some m \<and>
        m ''color'' = Some (Str ''red'') \<and> m ''underline'' = Some (Bool True) \<and>
        m ''backgroundColor'' = Some (Str ''yellow'')) \<and>
   \<lparr>seg_text = ''cde'', seg_start = 2, seg_end = 5, isCursor = False,
     seg_decorations = errorAndHighlight\<rparr>
     \<in> set (createSegments ''abcdefgh'' 8 errorAndHighlight True) \<and>
   mergeDecorationStyles errorAndHighlight =
     Some [''color'' \<mapsto> Str ''red'', ''underline'' \<mapsto> Bool True,
           ''backgroundColor'' \<mapsto> Str ''yellow'']"
proof -
  have mem: "\<lparr>seg_text = ''cde'', seg_start = 2, seg_end = 5, isCursor = False,
     seg_decorations = errorAndHighlight\<rparr>
     \<in> set (createSegments ''abcdefgh'' 8 errorAndHighlight True)"
    by (simp add: seg_defs errorAndHighlight_def)
  have ne: "errorAndHighlight \<noteq> []" by (simp add: errorAndHighlight_def)
  have lw: "lastWrite errorAndHighlight ''color'' = Some (Str ''red'')"
    "lastWrite errorAndHighlight ''underline'' = Some (Bool True)"
    "lastWrite errorAndHighlight ''backgroundColor'' = Some (Str ''yellow'')"
    by (simp_all add: lastWrite_def errorAndHighlight_def)
  from mergeDecorationStyles_last_write_wins[of errorAndHighlight 8 True] ne mem lw show ?thesis by fastforce
qed

end
